theory Spec2Isabelle
  imports Main
begin

section \<open>Host primitives used by dateUtils.ts\<close>

text \<open>
  The source is TypeScript.  Strings are modelled as \<^typ>\<open>string\<close> (one \<^typ>\<open>char\<close> per
  code unit, Latin-1 range), numbers that the code only ever uses as integers are
  \<^typ>\<open>int\<close>, and \<open>NaN\<close>, \<open>null\<close> and \<open>undefined\<close> are \<open>None\<close>.
\<close>

subsection \<open>Characters and digit strings\<close>

definition isDigit :: "char \<Rightarrow> bool" where
  "isDigit c = (c \<in> set ''0123456789'')"

text \<open>The white space that \<open>parseInt\<close> skips (TAB, LF, VT, FF, CR, SP, NBSP).\<close>

definition isWhiteSpace :: "char \<Rightarrow> bool" where
  "isWhiteSpace c = (c \<in> set [CHR 0x09, CHR 0x0A, CHR 0x0B, CHR 0x0C, CHR 0x0D, CHR 0x20, CHR 0xA0])"

definition digitVal :: "char \<Rightarrow> nat" where
  "digitVal c = of_char c - 48"

definition digitChar :: "nat \<Rightarrow> char" where
  "digitChar n = ''0123456789'' ! n"

definition digitsValue :: "string \<Rightarrow> nat" where
  "digitsValue ds = foldl (\<lambda>acc c. 10 * acc + digitVal c) 0 ds"

fun digitsOf :: "nat \<Rightarrow> string" where
  "digitsOf n = (if n < 10 then [digitChar n] else digitsOf (n div 10) @ [digitChar (n mod 10)])"

declare digitsOf.simps [simp del]

subsection \<open>\<open>parseInt(s, 10)\<close>, \<open>String(n)\<close>, \<open>padStart\<close>, \<open>split\<close>, \<open>slice\<close>\<close>

text \<open>
  \<open>parseInt\<close> skips leading white space, reads an optional sign and then the longest
  prefix of decimal digits; whatever follows is ignored.  No digit at all gives \<open>NaN\<close>.
\<close>

definition parseInt :: "string \<Rightarrow> int option" where
  "parseInt s =
     (let t = dropWhile isWhiteSpace s;
          neg = (t \<noteq> [] \<and> hd t = CHR ''-'');
          u = (if t \<noteq> [] \<and> (hd t = CHR ''-'' \<or> hd t = CHR ''+'') then tl t else t);
          ds = takeWhile isDigit u
      in if ds = [] then None
         else Some (if neg then - int (digitsValue ds) else int (digitsValue ds)))"

text \<open>\<open>parseInt(undefined, 10)\<close> is \<open>NaN\<close> (the argument is read as the text "undefined").\<close>

definition parseIntU :: "string option \<Rightarrow> int option" where
  "parseIntU so = (case so of None \<Rightarrow> None | Some s \<Rightarrow> parseInt s)"

definition js_String :: "int \<Rightarrow> string" where
  "js_String n = (if n < 0 then CHR ''-'' # digitsOf (nat (- n)) else digitsOf (nat n))"

definition padStart :: "nat \<Rightarrow> char \<Rightarrow> string \<Rightarrow> string" where
  "padStart n c s = replicate (n - length s) c @ s"

fun js_split :: "char \<Rightarrow> string \<Rightarrow> string list" where
  "js_split c [] = [[]]"
| "js_split c (x # xs) =
     (if x = c then [] # js_split c xs
      else (case js_split c xs of [] \<Rightarrow> [[x]] | p # ps \<Rightarrow> (x # p) # ps))"

text \<open>Array destructuring \<open>const [a, b] = parts\<close>: a missing element is \<open>undefined\<close>.\<close>

definition elemAt :: "'a list \<Rightarrow> nat \<Rightarrow> 'a option" where
  "elemAt xs i = (if i < length xs then Some (xs ! i) else None)"

definition slice :: "string \<Rightarrow> nat \<Rightarrow> nat \<Rightarrow> string" where
  "slice s a b = take (b - a) (drop a s)"

section \<open>The host \<open>Date\<close> object\<close>

text \<open>
  A \<open>Date\<close> is read through its local-time getters and compared through \<open>getTime()\<close>.
  The model keeps the local civil fields that the getters report.  Every \<open>Date\<close> on the
  paths modelled here is built by the constructor and the setters from local fields, and
  the host resolves a given local time always to the same instant, so two such dates have
  the same \<open>getTime()\<close> exactly when their local fields agree.  Months are 0-based, as in
  the host.

  The time zone of the host is a parameter of the model.  A zone is given by the number of
  milliseconds by which the host moves a requested local time: 0 for a local time that
  exists in the zone, the length of the gap for a local time that a zone transition skips
  (the host reads a skipped local time with the offset in force before the transition).
\<close>

record DateFields =
  fullYear :: int
  monthIdx :: int
  dayOfMonth :: int
  hours :: int
  minutes :: int
  seconds :: int
  milliseconds :: int

type_synonym Zone = "DateFields \<Rightarrow> int"

datatype Date = InvalidDate | ValidDate DateFields

definition getFullYear :: "Date \<Rightarrow> int option" where
  "getFullYear d = (case d of InvalidDate \<Rightarrow> None | ValidDate f \<Rightarrow> Some (fullYear f))"

definition getMonth :: "Date \<Rightarrow> int option" where
  "getMonth d = (case d of InvalidDate \<Rightarrow> None | ValidDate f \<Rightarrow> Some (monthIdx f))"

definition getDate :: "Date \<Rightarrow> int option" where
  "getDate d = (case d of InvalidDate \<Rightarrow> None | ValidDate f \<Rightarrow> Some (dayOfMonth f))"

definition getHours :: "Date \<Rightarrow> int option" where
  "getHours d = (case d of InvalidDate \<Rightarrow> None | ValidDate f \<Rightarrow> Some (hours f))"

definition getMinutes :: "Date \<Rightarrow> int option" where
  "getMinutes d = (case d of InvalidDate \<Rightarrow> None | ValidDate f \<Rightarrow> Some (minutes f))"

subsection \<open>The Gregorian calendar\<close>

definition isLeapYear :: "int \<Rightarrow> bool" where
  "isLeapYear y = (y mod 4 = 0 \<and> (y mod 100 \<noteq> 0 \<or> y mod 400 = 0))"

definition monthLength :: "int \<Rightarrow> int \<Rightarrow> int" where
  "monthLength y m =
     (if m = 1 then (if isLeapYear y then 29 else 28)
      else if m = 3 \<or> m = 5 \<or> m = 8 \<or> m = 10 then 30 else 31)"

text \<open>A (year, month 1..12, day) triple that names a day of the Gregorian calendar.\<close>

definition realGregorianDate :: "int \<Rightarrow> int \<Rightarrow> int \<Rightarrow> bool" where
  "realGregorianDate y m d = (1 \<le> m \<and> m \<le> 12 \<and> 1 \<le> d \<and> d \<le> monthLength y (m - 1))"

subsection \<open>Field overflow: rolling days into the neighbouring months\<close>

function rollFwd :: "int \<Rightarrow> int \<Rightarrow> int \<Rightarrow> int \<times> int \<times> int" where
  "rollFwd y m d =
     (if monthLength y m < d
      then (if m = 11 then rollFwd (y + 1) 0 (d - monthLength y m)
            else rollFwd y (m + 1) (d - monthLength y m))
      else (y, m, d))"
  by pat_completeness auto
termination
proof (relation "measure (\<lambda>(y, m, d). nat d)")
  show "wf (measure (\<lambda>(y, m, d). nat d))" by simp
next
  fix y m d :: int
  assume "monthLength y m < d" "m = 11"
  then show "((y + 1, 0, d - monthLength y m), (y, m, d)) \<in> measure (\<lambda>(y, m, d). nat d)"
    by (simp add: monthLength_def split: if_splits)
next
  fix y m d :: int
  assume "monthLength y m < d" "m \<noteq> 11"
  then show "((y, m + 1, d - monthLength y m), (y, m, d)) \<in> measure (\<lambda>(y, m, d). nat d)"
    by (simp add: monthLength_def split: if_splits)
qed

function rollBack :: "int \<Rightarrow> int \<Rightarrow> int \<Rightarrow> int \<times> int \<times> int" where
  "rollBack y m d =
     (if d < 1
      then (if m = 0 then rollBack (y - 1) 11 (d + monthLength (y - 1) 11)
            else rollBack y (m - 1) (d + monthLength y (m - 1)))
      else (y, m, d))"
  by pat_completeness auto
termination
proof (relation "measure (\<lambda>(y, m, d). nat (1 - d))")
  show "wf (measure (\<lambda>(y, m, d). nat (1 - d)))" by simp
next
  fix y m d :: int
  assume "d < 1" "m = 0"
  then show "((y - 1, 11, d + monthLength (y - 1) 11), (y, m, d))
               \<in> measure (\<lambda>(y, m, d). nat (1 - d))"
    by (simp add: monthLength_def split: if_splits)
next
  fix y m d :: int
  assume "d < 1" "m \<noteq> 0"
  then show "((y, m - 1, d + monthLength y (m - 1)), (y, m, d))
               \<in> measure (\<lambda>(y, m, d). nat (1 - d))"
    by (simp add: monthLength_def split: if_splits)
qed

declare rollFwd.simps [simp del] rollBack.simps [simp del]

text \<open>
  Every constructor and setter of the host first carries milliseconds into seconds, seconds
  into minutes, minutes into hours, hours into days and months into years (floor division),
  then rolls the day of the month.
\<close>

definition normalise :: "int \<Rightarrow> int \<Rightarrow> int \<Rightarrow> int \<Rightarrow> int \<Rightarrow> int \<Rightarrow> int \<Rightarrow> DateFields" where
  "normalise y m d h mi s ms =
     (let s1 = s + ms div 1000;
          mi1 = mi + s1 div 60;
          h1 = h + mi1 div 60;
          d1 = d + h1 div 24;
          y1 = y + m div 12;
          m1 = m mod 12;
          (y2, m2, d2) = (if d1 < 1 then rollBack y1 m1 d1 else rollFwd y1 m1 d1)
      in \<lparr>fullYear = y2, monthIdx = m2, dayOfMonth = d2, hours = h1 mod 24,
          minutes = mi1 mod 60, seconds = s1 mod 60, milliseconds = ms mod 1000\<rparr>)"

text \<open>
  The local time the host reports for a requested local time: the request is normalised,
  moved by what the zone says for it, and normalised again.
\<close>

definition makeLocal :: "Zone \<Rightarrow> int \<Rightarrow> int \<Rightarrow> int \<Rightarrow> int \<Rightarrow> int \<Rightarrow> int \<Rightarrow> int \<Rightarrow> DateFields" where
  "makeLocal zone y m d h mi s ms =
     (let f = normalise y m d h mi s ms
      in normalise (fullYear f) (monthIdx f) (dayOfMonth f) (hours f) (minutes f) (seconds f)
           (milliseconds f + zone f))"

text \<open>
  The host represents instants from -271821-04-20T00:00 to 275760-09-13T00:00 UTC only;
  anything outside is the invalid date.  The bounds are applied to the local fields (in a
  zone other than UTC the host's bounds lie within a day of these).
\<close>

definition fieldsLe :: "DateFields \<Rightarrow> DateFields \<Rightarrow> bool" where
  "fieldsLe a b =
     (fullYear a < fullYear b \<or> (fullYear a = fullYear b \<and>
       (monthIdx a < monthIdx b \<or> (monthIdx a = monthIdx b \<and>
         (dayOfMonth a < dayOfMonth b \<or> (dayOfMonth a = dayOfMonth b \<and>
           (hours a < hours b \<or> (hours a = hours b \<and>
             (minutes a < minutes b \<or> (minutes a = minutes b \<and>
               (seconds a < seconds b \<or> (seconds a = seconds b \<and>
                 milliseconds a \<le> milliseconds b))))))))))))"

definition timeClip :: "DateFields \<Rightarrow> Date" where
  "timeClip f =
     (if fieldsLe \<lparr>fullYear = -271821, monthIdx = 3, dayOfMonth = 20, hours = 0, minutes = 0,
                    seconds = 0, milliseconds = 0\<rparr> f
         \<and> fieldsLe f \<lparr>fullYear = 275760, monthIdx = 8, dayOfMonth = 13, hours = 0, minutes = 0,
                        seconds = 0, milliseconds = 0\<rparr>
      then ValidDate f else InvalidDate)"

text \<open>\<open>new Date(year, monthIndex, day)\<close>: a year from 0 to 99 means 1900 + year.\<close>

definition newDate :: "Zone \<Rightarrow> int \<Rightarrow> int \<Rightarrow> int \<Rightarrow> Date" where
  "newDate zone y m d =
     timeClip (makeLocal zone (if 0 \<le> y \<and> y \<le> 99 then 1900 + y else y) m d 0 0 0 0)"

text \<open>
  \<open>setHours(h)\<close> and \<open>setMinutes(m)\<close> replace one local field, keep the others and resolve
  the resulting local time in the zone again.
\<close>

definition setHours :: "Zone \<Rightarrow> Date \<Rightarrow> int \<Rightarrow> Date" where
  "setHours zone dt h =
     (case dt of InvalidDate \<Rightarrow> InvalidDate
      | ValidDate f \<Rightarrow>
          timeClip (makeLocal zone (fullYear f) (monthIdx f) (dayOfMonth f) h (minutes f)
            (seconds f) (milliseconds f)))"

definition setMinutes :: "Zone \<Rightarrow> Date \<Rightarrow> int \<Rightarrow> Date" where
  "setMinutes zone dt mi =
     (case dt of InvalidDate \<Rightarrow> InvalidDate
      | ValidDate f \<Rightarrow>
          timeClip (makeLocal zone (fullYear f) (monthIdx f) (dayOfMonth f) (hours f) mi
            (seconds f) (milliseconds f)))"

section \<open>dateUtils.ts\<close>

definition BE_OFFSET :: int where
  "BE_OFFSET = 543"

definition formatThaiDate :: "Date option \<Rightarrow> string" where
  "formatThaiDate date =
     (case date of None \<Rightarrow> [] | Some InvalidDate \<Rightarrow> []
      | Some (ValidDate f) \<Rightarrow>
          (let day = padStart 2 CHR ''0'' (js_String (dayOfMonth f));
               month = padStart 2 CHR ''0'' (js_String (monthIdx f + 1));
               yearBE = fullYear f + BE_OFFSET
           in day @ ''/'' @ month @ ''/'' @ js_String yearBE))"

definition formatThaiDateTime :: "Date option \<Rightarrow> string" where
  "formatThaiDateTime date =
     (case date of None \<Rightarrow> [] | Some InvalidDate \<Rightarrow> []
      | Some (ValidDate f) \<Rightarrow>
          (let day = padStart 2 CHR ''0'' (js_String (dayOfMonth f));
               month = padStart 2 CHR ''0'' (js_String (monthIdx f + 1));
               yearBE = fullYear f + BE_OFFSET;
               hour = padStart 2 CHR ''0'' (js_String (hours f));
               minute = padStart 2 CHR ''0'' (js_String (minutes f))
           in day @ ''/'' @ month @ ''/'' @ js_String yearBE @ '' '' @ hour @ '':'' @ minute))"

definition formatADDate :: "Date option \<Rightarrow> string" where
  "formatADDate date =
     (case date of None \<Rightarrow> [] | Some InvalidDate \<Rightarrow> []
      | Some (ValidDate f) \<Rightarrow>
          (let day = padStart 2 CHR ''0'' (js_String (dayOfMonth f));
               month = padStart 2 CHR ''0'' (js_String (monthIdx f + 1));
               year = fullYear f
           in js_String year @ ''-'' @ month @ ''-'' @ day))"

definition formatADDateTime :: "Date option \<Rightarrow> string" where
  "formatADDateTime date =
     (case date of None \<Rightarrow> [] | Some InvalidDate \<Rightarrow> []
      | Some (ValidDate f) \<Rightarrow>
          (let day = padStart 2 CHR ''0'' (js_String (dayOfMonth f));
               month = padStart 2 CHR ''0'' (js_String (monthIdx f + 1));
               year = fullYear f;
               hour = padStart 2 CHR ''0'' (js_String (hours f));
               minute = padStart 2 CHR ''0'' (js_String (minutes f))
           in js_String year @ ''-'' @ month @ ''-'' @ day @ '' '' @ hour @ '':'' @ minute))"

text \<open>
  The parsers construct dates, so they take the zone of the host.  \<open>parseThaiDate\<close> also
  reads the clock (\<open>new Date().getFullYear()\<close>); the current year is the parameter
  \<open>currentYear\<close>.
\<close>

definition parseThaiDate :: "Zone \<Rightarrow> int \<Rightarrow> string \<Rightarrow> Date option" where
  "parseThaiDate zone currentYear value =
     (if length value \<noteq> 10 then None
      else let parts = js_split CHR ''/'' value in
        if length parts \<noteq> 3 then None
        else (case (parseInt (parts ! 0), parseInt (parts ! 1), parseInt (parts ! 2)) of
            (Some day, Some month, Some yearBE) \<Rightarrow>
              if month < 1 \<or> month > 12 then None
              else if day < 1 \<or> day > 31 then None
              else let yearAD = yearBE - BE_OFFSET in
                if yearAD > currentYear + 100 \<or> yearAD < currentYear - 100 then None
                else let date = newDate zone yearAD (month - 1) day in
                  if getFullYear date \<noteq> Some yearAD \<or> getMonth date \<noteq> Some (month - 1)
                     \<or> getDate date \<noteq> Some day
                  then None else Some date
          | _ \<Rightarrow> None))"

definition parseADDate :: "Zone \<Rightarrow> string \<Rightarrow> Date option" where
  "parseADDate zone value =
     (if value = [] \<or> length value \<noteq> 10 then None
      else let parts = js_split CHR ''-'' value in
        if length parts \<noteq> 3 then None
        else (case (parseInt (parts ! 0), parseInt (parts ! 1), parseInt (parts ! 2)) of
            (Some year, Some month, Some day) \<Rightarrow>
              (let date = newDate zone year (month - 1) day in
                 if getFullYear date \<noteq> Some year \<or> getMonth date \<noteq> Some (month - 1)
                    \<or> getDate date \<noteq> Some day
                 then None else Some date)
          | _ \<Rightarrow> None))"

definition parseThaiDateTime :: "Zone \<Rightarrow> int \<Rightarrow> string \<Rightarrow> Date option" where
  "parseThaiDateTime zone currentYear value =
     (if length value \<noteq> 16 then None
      else let ps = js_split CHR '' '' value in
        (case (elemAt ps 0, elemAt ps 1) of
            (Some dateStr, Some timeStr) \<Rightarrow>
              if dateStr = [] \<or> timeStr = [] then None
              else (case parseThaiDate zone currentYear dateStr of
                  None \<Rightarrow> None
                | Some date \<Rightarrow>
                  (let ps = js_split CHR '':'' timeStr in
                    (case (parseIntU (elemAt ps 0), parseIntU (elemAt ps 1)) of
                        (Some hour, Some minute) \<Rightarrow>
                          if hour < 0 \<or> hour > 23 then None
                          else if minute < 0 \<or> minute > 59 then None
                          else Some (setMinutes zone (setHours zone date hour) minute)
                      | _ \<Rightarrow> None)))
          | _ \<Rightarrow> None))"

definition parseADDateTime :: "Zone \<Rightarrow> string \<Rightarrow> Date option" where
  "parseADDateTime zone value =
     (if value = [] \<or> length value \<noteq> 16 then None
      else let ps = js_split CHR '' '' value in
        (case (elemAt ps 0, elemAt ps 1) of
            (Some dateStr, Some timeStr) \<Rightarrow>
              if dateStr = [] \<or> timeStr = [] then None
              else (case parseADDate zone dateStr of
                  None \<Rightarrow> None
                | Some date \<Rightarrow>
                  (let ps = js_split CHR '':'' timeStr in
                    (case (parseIntU (elemAt ps 0), parseIntU (elemAt ps 1)) of
                        (Some hour, Some minute) \<Rightarrow>
                          if hour < 0 \<or> hour > 23 then None
                          else if minute < 0 \<or> minute > 59 then None
                          else Some (setMinutes zone (setHours zone date hour) minute)
                      | _ \<Rightarrow> None)))
          | _ \<Rightarrow> None))"

section \<open>The picker component\<close>

text \<open>
  The state hooks of \<open>ThaiDatePicker\<close> that the text field and the value synchronisation
  use.  \<open>selectedTime\<close> stores what \<open>getHours()\<close> and \<open>getMinutes()\<close> returned.
\<close>

record PickerState =
  inputValue :: string
  viewDate :: Date
  selectedTime :: "int option \<times> int option"

definition formatThai :: "bool \<Rightarrow> Date option \<Rightarrow> string" where
  "formatThai withTime d = (if withTime then formatThaiDateTime d else formatThaiDate d)"

definition parseThai :: "Zone \<Rightarrow> bool \<Rightarrow> int \<Rightarrow> string \<Rightarrow> Date option" where
  "parseThai zone withTime currentYear s =
     (if withTime then parseThaiDateTime zone currentYear s
      else parseThaiDate zone currentYear s)"

definition formatAD :: "bool \<Rightarrow> Date option \<Rightarrow> string" where
  "formatAD withTime d = (if withTime then formatADDateTime d else formatADDate d)"

definition parseAD :: "Zone \<Rightarrow> bool \<Rightarrow> string \<Rightarrow> Date option" where
  "parseAD zone withTime s = (if withTime then parseADDateTime zone s else parseADDate zone s)"

text \<open>\<open>isSameDate\<close>: \<open>getTime()\<close> of the invalid date is \<open>NaN\<close>, which equals nothing.\<close>

definition isSameDate :: "Date option \<Rightarrow> Date option \<Rightarrow> bool" where
  "isSameDate d1 d2 =
     (case (d1, d2) of
        (None, None) \<Rightarrow> True
      | (Some (ValidDate f), Some (ValidDate g)) \<Rightarrow> f = g
      | _ \<Rightarrow> False)"

text \<open>The body of the value-synchronisation effect.\<close>

definition valueSyncEffect ::
  "Zone \<Rightarrow> bool \<Rightarrow> int \<Rightarrow> string \<Rightarrow> PickerState \<Rightarrow> PickerState" where
  "valueSyncEffect zone withTime currentYear value st =
     (let currentInputDate = parseThai zone withTime currentYear (inputValue st);
          propDate = parseAD zone withTime value
      in if \<not> isSameDate propDate currentInputDate
         then (case propDate of
                 Some pd \<Rightarrow> st\<lparr>inputValue := formatThai withTime (Some pd), viewDate := pd,
                               selectedTime := (getHours pd, getMinutes pd)\<rparr>
               | None \<Rightarrow> if value = [] then st\<lparr>inputValue := []\<rparr> else st)
         else st)"

text \<open>
  \<open>useEffect(body, [value, withTime])\<close>: the body runs after the first render
  (\<open>prevDeps = None\<close>) and after a render whose dependencies differ from those of the
  render before.
\<close>

definition useEffectValueSync ::
  "Zone \<Rightarrow> (string \<times> bool) option \<Rightarrow> bool \<Rightarrow> int \<Rightarrow> string \<Rightarrow> PickerState
     \<Rightarrow> PickerState" where
  "useEffectValueSync zone prevDeps withTime currentYear value st =
     (if prevDeps = Some (value, withTime) then st
      else valueSyncEffect zone withTime currentYear value st)"

text \<open>\<open>handleInputChange\<close>, first part: the digit buffer \<open>raw\<close>.\<close>

definition maskRaw :: "bool \<Rightarrow> string \<Rightarrow> string" where
  "maskRaw withTime input =
     (let raw = filter isDigit input;
          maxDigits = (if withTime then 12 else 8)
      in if length raw > maxDigits then slice raw 0 maxDigits else raw)"

text \<open>\<open>handleInputChange\<close>, second part: the text \<open>formatted\<close> built from \<open>raw\<close>.\<close>

definition maskFormat :: "bool \<Rightarrow> string \<Rightarrow> string" where
  "maskFormat withTime raw =
     (let f1 = (if length raw > 0 then slice raw 0 2 else []);
          f2 = (if length raw \<ge> 3 then f1 @ ''/'' @ slice raw 2 4 else f1);
          f3 = (if length raw \<ge> 5 then f2 @ ''/'' @ slice raw 4 8 else f2);
          f4 = (if withTime \<and> length raw \<ge> 9 then f3 @ '' '' @ slice raw 8 10 else f3);
          f5 = (if withTime \<and> length raw \<ge> 11 then f4 @ '':'' @ slice raw 10 12 else f4)
      in f5)"

text \<open>
  \<open>handleInputChange\<close>: the new state and the argument of the \<open>onChange\<close> call
  (\<open>None\<close> when \<open>onChange\<close> is not called).
\<close>

definition handleInputChange ::
  "Zone \<Rightarrow> bool \<Rightarrow> int \<Rightarrow> string \<Rightarrow> PickerState \<Rightarrow> PickerState \<times> string option" where
  "handleInputChange zone withTime currentYear input st =
     (let raw = maskRaw withTime input;
          formatted = maskFormat withTime raw;
          st1 = st\<lparr>inputValue := formatted\<rparr>;
          expectedLength = (if withTime then 16 else 10)
      in if length formatted = expectedLength
         then (case parseThai zone withTime currentYear formatted of
                 Some parsedDate \<Rightarrow>
                   (st1\<lparr>viewDate := parsedDate,
                        selectedTime := (getHours parsedDate, getMinutes parsedDate)\<rparr>,
                    Some (formatAD withTime (Some parsedDate)))
               | None \<Rightarrow> (st1, Some []))
         else if length raw = 0 then (st1, Some [])
         else (st1, None))"

section \<open>Notions used to state the properties\<close>

text \<open>
  Zero-padded decimal fields and the texts \<open>YYYY-MM-DD\<close>, \<open>DD/MM/YYYY\<close> and \<open>HH:mm\<close>
  built from them; a valid instant of the date-only or of the date+time variant.
\<close>

definition padNum :: "nat \<Rightarrow> int \<Rightarrow> string" where
  "padNum k n = padStart k CHR ''0'' (js_String n)"


definition displayText :: "int \<Rightarrow> int \<Rightarrow> int \<Rightarrow> string" where
  "displayText d m yBE = padNum 2 d @ ''/'' @ padNum 2 m @ ''/'' @ padNum 4 yBE"



text \<open>
  Zones.  \<open>zoneUTC\<close> has no transition.  \<open>zoneLondon2026\<close> is Europe/London around the start
  of summer time on 29 March 2026, when the local times from 01:00 to 01:59 are skipped.
  \<open>zoneBangkok1920\<close> is Asia/Bangkok around 1 April 1920, when the offset changed from
  +06:42:04 to +07:00 at local midnight and the first 17 minutes 56 seconds of the day are
  skipped.
\<close>

definition zoneUTC :: Zone where
  "zoneUTC f = 0"



text \<open>
  \<open>midnightOf y m d\<close> is the local midnight of a day (month 0-based).  The zone does not skip
  the day when the host resolves that midnight to a time of the same day, and it keeps an
  instant when it skips none of the local times through which the parsers build it:
  midnight, then the full hour, then the hour and minute.
\<close>

definition midnightOf :: "int \<Rightarrow> int \<Rightarrow> int \<Rightarrow> DateFields" where
  "midnightOf y m d =
     \<lparr>fullYear = y, monthIdx = m, dayOfMonth = d, hours = 0, minutes = 0, seconds = 0,
      milliseconds = 0\<rparr>"

definition dayExists :: "Zone \<Rightarrow> int \<Rightarrow> int \<Rightarrow> int \<Rightarrow> bool" where
  "dayExists zone y m d = (0 \<le> zone (midnightOf y m d) \<and> zone (midnightOf y m d) < 86400000)"



text \<open>
  A numerically well-formed date text: three fields between two separators, each of which
  \<open>parseInt\<close> reads as a number.
\<close>

definition numericTriple :: "char \<Rightarrow> string \<Rightarrow> (int \<times> int \<times> int) option" where
  "numericTriple sep s =
     (case js_split sep s of
        [a, b, c] \<Rightarrow>
          (case (parseInt a, parseInt b, parseInt c) of
             (Some x, Some y, Some z) \<Rightarrow> Some (x, y, z)
           | _ \<Rightarrow> None)
      | _ \<Rightarrow> None)"

text \<open>
  The input mask in the words of the specification: keep the digits, cut them to the
  mode's maximum, and write them left to right with \<open>/\<close> in front of the 3rd and the 5th
  digit and, when time is enabled, a space in front of the 9th and \<open>:\<close> in front of the
  11th.  \<open>maxDigits\<close> and \<open>expectedLength\<close> are the two mode constants of
  \<open>handleInputChange\<close>.
\<close>

definition separatorBefore :: "bool \<Rightarrow> nat \<Rightarrow> string" where
  "separatorBefore withTime i =
     (if i = 2 \<or> i = 4 then ''/''
      else if withTime \<and> i = 8 then '' ''
      else if withTime \<and> i = 10 then '':''
      else [])"

fun punctuateFrom :: "bool \<Rightarrow> nat \<Rightarrow> string \<Rightarrow> string" where
  "punctuateFrom withTime i [] = []"
| "punctuateFrom withTime i (c # cs) =
     separatorBefore withTime i @ c # punctuateFrom withTime (Suc i) cs"

definition maskSpec :: "bool \<Rightarrow> string \<Rightarrow> string" where
  "maskSpec withTime s =
     punctuateFrom withTime 0 (take (if withTime then 12 else 8) (filter isDigit s))"

definition maxDigits :: "bool \<Rightarrow> nat" where
  "maxDigits withTime = (if withTime then 12 else 8)"

definition expectedLength :: "bool \<Rightarrow> nat" where
  "expectedLength withTime = (if withTime then 16 else 10)"

section \<open>Digits, fields and separators\<close>

lemma monthLength_bounds: "28 \<le> monthLength y m \<and> monthLength y m \<le> 31"
  by (simp add: monthLength_def)

lemma isDigit_digitChar: "k < 10 \<Longrightarrow> isDigit (digitChar k)"
proof -
  assume "k < 10"
  then have "k \<in> {0,1,2,3,4,5,6,7,8,9}" by auto
  then show ?thesis by (auto simp: isDigit_def digitChar_def)
qed

lemma digitVal_digitChar: "k < 10 \<Longrightarrow> digitVal (digitChar k) = k"
proof -
  assume "k < 10"
  then have "k \<in> {0,1,2,3,4,5,6,7,8,9}" by auto
  then show ?thesis by (auto simp: digitVal_def digitChar_def)
qed

lemma digitsValue_snoc: "digitsValue (ds @ [c]) = 10 * digitsValue ds + digitVal c"
  by (simp add: digitsValue_def)

lemma digitsValue_digitsOf: "digitsValue (digitsOf n) = n"
proof (induction n rule: digitsOf.induct)
  case (1 n)
  show ?case
  proof (cases "n < 10")
    case True
    then show ?thesis by (simp add: digitsOf.simps [of n] digitsValue_def digitVal_digitChar)
  next
    case False
    then show ?thesis using 1
      by (simp add: digitsOf.simps [of n] digitsValue_snoc digitVal_digitChar)
  qed
qed

lemma digitsOf_all_digits: "c \<in> set (digitsOf n) \<Longrightarrow> isDigit c"
proof (induction n rule: digitsOf.induct)
  case (1 n)
  then show ?case
    by (cases "n < 10") (auto simp: digitsOf.simps [of n] isDigit_digitChar)
qed

lemma digitsOf_nonempty: "digitsOf n \<noteq> []"
  by (subst digitsOf.simps) simp

lemma length_digitsOf_1: "n < 10 \<Longrightarrow> length (digitsOf n) = 1"
  by (subst digitsOf.simps) simp

lemma length_digitsOf_2: "10 \<le> n \<Longrightarrow> n < 100 \<Longrightarrow> length (digitsOf n) = 2"
  by (subst digitsOf.simps) (simp add: length_digitsOf_1)

lemma length_digitsOf_3: "100 \<le> n \<Longrightarrow> n < 1000 \<Longrightarrow> length (digitsOf n) = 3"
  by (subst digitsOf.simps) (simp add: length_digitsOf_2)

lemma length_digitsOf_4: "1000 \<le> n \<Longrightarrow> n < 10000 \<Longrightarrow> length (digitsOf n) = 4"
  by (subst digitsOf.simps) (simp add: length_digitsOf_3)


lemma isDigit_not_special:
  "isDigit c \<Longrightarrow> \<not> isWhiteSpace c \<and> c \<noteq> CHR ''-'' \<and> c \<noteq> CHR ''+'' \<and> c \<noteq> CHR ''/''
     \<and> c \<noteq> CHR '' '' \<and> c \<noteq> CHR '':''"
  by (auto simp: isDigit_def isWhiteSpace_def)

lemma parseInt_digits:
  assumes "ds \<noteq> []" and "\<forall>c\<in>set ds. isDigit c"
  shows "parseInt ds = Some (int (digitsValue ds))"
proof -
  obtain x xs where ds: "ds = x # xs" using assms(1) by (cases ds) auto
  have x: "isDigit x" using assms(2) ds by simp
  have dw: "dropWhile isWhiteSpace ds = ds"
    using x isDigit_not_special [of x] ds by simp
  have tw: "takeWhile isDigit ds = ds"
    using assms(2) by (simp add: takeWhile_eq_all_conv)
  have hd: "hd ds \<noteq> CHR ''-''" "hd ds \<noteq> CHR ''+''"
    using x isDigit_not_special [of x] ds by simp_all
  show ?thesis
    using assms(1) by (simp add: parseInt_def dw hd tw)
qed

lemma digitsValue_zero_Cons: "digitsValue (CHR ''0'' # ds) = digitsValue ds"
  by (simp add: digitsValue_def digitVal_def)

lemma digitsValue_zeros: "digitsValue (replicate j CHR ''0'' @ ds) = digitsValue ds"
  by (induction j) (simp_all add: digitsValue_zero_Cons)

lemma length_digitsOf_le:
  assumes "n < 10000"
  shows "length (digitsOf n) \<le> 4" and "n < 100 \<Longrightarrow> length (digitsOf n) \<le> 2"
proof -
  consider "n < 10" | "10 \<le> n" "n < 100" | "100 \<le> n" "n < 1000" | "1000 \<le> n" "n < 10000"
    using assms by linarith
  then show "length (digitsOf n) \<le> 4"
    by cases (simp_all add: length_digitsOf_1 length_digitsOf_2 length_digitsOf_3
        length_digitsOf_4)
  assume "n < 100"
  then consider "n < 10" | "10 \<le> n" "n < 100" by linarith
  then show "length (digitsOf n) \<le> 2"
    by cases (simp_all add: length_digitsOf_1 length_digitsOf_2)
qed

lemma padNum_props:
  assumes "0 \<le> n" and "length (digitsOf (nat n)) \<le> k"
  shows "length (padNum k n) = k" and "\<forall>c\<in>set (padNum k n). isDigit c"
    and "digitsValue (padNum k n) = nat n" and "padNum k n \<noteq> []"
proof -
  have eq: "padNum k n = replicate (k - length (digitsOf (nat n))) CHR ''0'' @ digitsOf (nat n)"
    using assms(1) by (simp add: padNum_def padStart_def js_String_def)
  show "length (padNum k n) = k" using assms(2) by (simp add: eq)
  show "\<forall>c\<in>set (padNum k n). isDigit c"
    by (auto simp: eq isDigit_def dest: digitsOf_all_digits)
  show "digitsValue (padNum k n) = nat n"
    by (simp add: eq digitsValue_zeros digitsValue_digitsOf)
  show "padNum k n \<noteq> []" by (simp add: eq digitsOf_nonempty)
qed

lemma pad2_props:
  assumes "0 \<le> n" and "n \<le> 99"
  shows "length (padNum 2 n) = 2" and "\<forall>c\<in>set (padNum 2 n). isDigit c"
    and "digitsValue (padNum 2 n) = nat n" and "padNum 2 n \<noteq> []"
  using assms padNum_props [of n 2] length_digitsOf_le(2) [of "nat n"] by simp_all

lemma pad4_props:
  assumes "0 \<le> n" and "n \<le> 9999"
  shows "length (padNum 4 n) = 4" and "\<forall>c\<in>set (padNum 4 n). isDigit c"
    and "digitsValue (padNum 4 n) = nat n" and "padNum 4 n \<noteq> []"
  using assms padNum_props [of n 4] length_digitsOf_le(1) [of "nat n"] by simp_all


lemma digits_no_separator:
  assumes "\<forall>c\<in>set s. isDigit c"
  shows "CHR ''-'' \<notin> set s" and "CHR ''/'' \<notin> set s" and "CHR '' '' \<notin> set s"
    and "CHR '':'' \<notin> set s"
  using assms isDigit_not_special by blast+

lemma js_split_nosep: "c \<notin> set a \<Longrightarrow> js_split c a = [a]"
  by (induction a) auto

lemma js_split_app: "c \<notin> set a \<Longrightarrow> js_split c (a @ c # b) = a # js_split c b"
  by (induction a) auto

lemma rollFwd_real:
  "0 \<le> m \<Longrightarrow> m \<le> 11 \<Longrightarrow> 1 \<le> d \<Longrightarrow> rollFwd y m d = (y', m', d')
     \<Longrightarrow> 0 \<le> m' \<and> m' \<le> 11 \<and> 1 \<le> d' \<and> d' \<le> monthLength y' m'"
proof (induction y m d rule: rollFwd.induct)
  case (1 y m d)
  show ?case
  proof (cases "monthLength y m < d")
    case over: True
    show ?thesis
    proof (cases "m = 11")
      case True
      have "rollFwd y m d = rollFwd (y + 1) 0 (d - monthLength y m)"
        using over True by (subst rollFwd.simps) simp
      then have "rollFwd (y + 1) 0 (d - monthLength y m) = (y', m', d')"
        using "1.prems"(4) by simp
      then show ?thesis using "1.IH"(1) [OF over True] over by simp
    next
      case False
      have "rollFwd y m d = rollFwd y (m + 1) (d - monthLength y m)"
        using over False by (subst rollFwd.simps) simp
      then have "rollFwd y (m + 1) (d - monthLength y m) = (y', m', d')"
        using "1.prems"(4) by simp
      then show ?thesis using "1.IH"(2) [OF over False] over False "1.prems"(1,2) by simp
    qed
  next
    case False
    then have "rollFwd y m d = (y, m, d)" by (subst rollFwd.simps) simp
    then show ?thesis using 1 False by simp
  qed
qed

lemma rollBack_real:
  "0 \<le> m \<Longrightarrow> m \<le> 11 \<Longrightarrow> d \<le> monthLength y m \<Longrightarrow> rollBack y m d = (y', m', d')
     \<Longrightarrow> 0 \<le> m' \<and> m' \<le> 11 \<and> 1 \<le> d' \<and> d' \<le> monthLength y' m'"
proof (induction y m d rule: rollBack.induct)
  case (1 y m d)
  show ?case
  proof (cases "d < 1")
    case under: True
    show ?thesis
    proof (cases "m = 0")
      case True
      have "rollBack y m d = rollBack (y - 1) 11 (d + monthLength (y - 1) 11)"
        using under True by (subst rollBack.simps) simp
      then have "rollBack (y - 1) 11 (d + monthLength (y - 1) 11) = (y', m', d')"
        using "1.prems"(4) by simp
      then show ?thesis using "1.IH"(1) [OF under True] under by simp
    next
      case False
      have "rollBack y m d = rollBack y (m - 1) (d + monthLength y (m - 1))"
        using under False by (subst rollBack.simps) simp
      then have "rollBack y (m - 1) (d + monthLength y (m - 1)) = (y', m', d')"
        using "1.prems"(4) by simp
      then show ?thesis using "1.IH"(2) [OF under False] under False "1.prems"(1,2) by simp
    qed
  next
    case False
    then have "rollBack y m d = (y, m, d)" by (subst rollBack.simps) simp
    then show ?thesis using 1 False by simp
  qed
qed

lemma normalise_real:
  "realGregorianDate (fullYear (normalise y m d h mi s ms))
     (monthIdx (normalise y m d h mi s ms) + 1) (dayOfMonth (normalise y m d h mi s ms))"
proof -
  define s1 where "s1 = s + ms div 1000"
  define mi1 where "mi1 = mi + s1 div 60"
  define h1 where "h1 = h + mi1 div 60"
  define d1 where "d1 = d + h1 div 24"
  define y1 where "y1 = y + m div 12"
  define m1 where "m1 = m mod 12"
  define r where "r = (if d1 < 1 then rollBack y1 m1 d1 else rollFwd y1 m1 d1)"
  obtain y2 m2 d2 where r: "r = (y2, m2, d2)" by (cases r) auto
  have m1: "0 \<le> m1" "m1 \<le> 11" by (simp_all add: m1_def)
  have "0 \<le> m2 \<and> m2 \<le> 11 \<and> 1 \<le> d2 \<and> d2 \<le> monthLength y2 m2"
  proof (cases "d1 < 1")
    case True
    then have "rollBack y1 m1 d1 = (y2, m2, d2)" using r by (simp add: r_def)
    moreover have "d1 \<le> monthLength y1 m1"
      using True monthLength_bounds [of y1 m1] by simp
    ultimately show ?thesis using rollBack_real m1 by blast
  next
    case False
    then have "rollFwd y1 m1 d1 = (y2, m2, d2)" using r by (simp add: r_def)
    then show ?thesis using rollFwd_real [of m1 d1 y1 y2 m2 d2] m1 False by simp
  qed
  moreover have "normalise y m d h mi s ms =
      (case r of (y2, m2, d2) \<Rightarrow>
        \<lparr>fullYear = y2, monthIdx = m2, dayOfMonth = d2, hours = h1 mod 24,
         minutes = mi1 mod 60, seconds = s1 mod 60, milliseconds = ms mod 1000\<rparr>)"
    unfolding normalise_def s1_def mi1_def h1_def d1_def y1_def m1_def r_def Let_def
    by (rule refl)
  then have "normalise y m d h mi s ms =
      \<lparr>fullYear = y2, monthIdx = m2, dayOfMonth = d2, hours = h1 mod 24,
       minutes = mi1 mod 60, seconds = s1 mod 60, milliseconds = ms mod 1000\<rparr>"
    by (simp add: r)
  ultimately show ?thesis by (simp add: realGregorianDate_def)
qed

lemma normalise_id:
  assumes "0 \<le> m" "m \<le> 11" "1 \<le> d" "d \<le> monthLength y m"
    and "0 \<le> h" "h \<le> 23" "0 \<le> mi" "mi \<le> 59" "0 \<le> s" "s \<le> 59" "0 \<le> ms" "ms \<le> 999"
  shows "normalise y m d h mi s ms =
     \<lparr>fullYear = y, monthIdx = m, dayOfMonth = d, hours = h, minutes = mi, seconds = s,
      milliseconds = ms\<rparr>"
proof -
  have ms: "ms div 1000 = 0" "ms mod 1000 = ms" using assms(11,12) by simp_all
  have s: "s div 60 = 0" "s mod 60 = s" using assms(9,10) by simp_all
  have mi: "mi div 60 = 0" "mi mod 60 = mi" using assms(7,8) by simp_all
  have h: "h div 24 = 0" "h mod 24 = h" using assms(5,6) by simp_all
  have m: "m div 12 = 0" "m mod 12 = m" using assms(1,2) by simp_all
  have d: "\<not> d < 1" "\<not> monthLength y m < d" using assms(3,4) by simp_all
  have r: "rollFwd y m d = (y, m, d)" using d(2) by (subst rollFwd.simps) simp
  show ?thesis
    by (simp add: normalise_def ms s mi h m d r)
qed

lemma day_fraction:
  assumes "0 \<le> ms" and "ms < 86400000"
  shows "ms div 1000 div 60 div 60 div 24 = (0::int)"
proof -
  have "ms div 1000 div 60 = ms div (1000 * 60)" by (rule zdiv_zmult2_eq [symmetric]) simp
  moreover have "ms div (1000 * 60) div 60 = ms div (1000 * 60 * 60)"
    by (rule zdiv_zmult2_eq [symmetric]) simp
  moreover have "ms div (1000 * 60 * 60) div 24 = ms div (1000 * 60 * 60 * 24)"
    by (rule zdiv_zmult2_eq [symmetric]) simp
  ultimately have "ms div 1000 div 60 div 60 div 24 = ms div 86400000" by simp
  then show ?thesis using assms by simp
qed

lemma normalise_sameday:
  assumes "0 \<le> m" "m \<le> 11" "1 \<le> d" "d \<le> monthLength y m"
    and "0 \<le> ms" "ms < 86400000"
  shows "fullYear (normalise y m d 0 0 0 ms) = y \<and> monthIdx (normalise y m d 0 0 0 ms) = m
       \<and> dayOfMonth (normalise y m d 0 0 0 ms) = d"
proof -
  have m: "m div 12 = 0" "m mod 12 = m" using assms(1,2) by simp_all
  have d: "\<not> d < 1" "\<not> monthLength y m < d" using assms(3,4) by simp_all
  have r: "rollFwd y m d = (y, m, d)" using d(2) by (subst rollFwd.simps) simp
  show ?thesis
    by (simp add: normalise_def Let_def m d r day_fraction [OF assms(5,6)])
qed

lemma makeLocal_real:
  "realGregorianDate (fullYear (makeLocal zone y m d h mi s ms))
     (monthIdx (makeLocal zone y m d h mi s ms) + 1) (dayOfMonth (makeLocal zone y m d h mi s ms))"
  by (simp add: makeLocal_def Let_def normalise_real)


lemma makeLocal_sameday:
  assumes "0 \<le> m" "m \<le> 11" "1 \<le> d" "d \<le> monthLength y m" and "dayExists zone y m d"
  shows "fullYear (makeLocal zone y m d 0 0 0 0) = y \<and> monthIdx (makeLocal zone y m d 0 0 0 0) = m
       \<and> dayOfMonth (makeLocal zone y m d 0 0 0 0) = d"
proof -
  have n: "normalise y m d 0 0 0 0 = midnightOf y m d"
    using assms(1-4) by (simp add: normalise_id midnightOf_def)
  have z: "0 \<le> zone (midnightOf y m d)" "zone (midnightOf y m d) < 86400000"
    using assms(5) by (simp_all add: dayExists_def)
  show ?thesis
    using normalise_sameday [OF assms(1-4) z]
    by (simp add: makeLocal_def n) (simp add: midnightOf_def)
qed

lemma timeClip_ok:
  "- 271821 < fullYear f \<Longrightarrow> fullYear f < 275760 \<Longrightarrow> timeClip f = ValidDate f"
  by (simp add: timeClip_def fieldsLe_def)


lemma newDate_sameday:
  assumes "realGregorianDate y m d" and "\<not> (0 \<le> y \<and> y \<le> 99)"
    and "- 271821 < y" and "y < 275760" and "dayExists zone y (m - 1) d"
  shows "\<exists>g. newDate zone y (m - 1) d = ValidDate g \<and> fullYear g = y \<and> monthIdx g = m - 1
           \<and> dayOfMonth g = d"
proof -
  have r: "0 \<le> m - 1" "m - 1 \<le> 11" "1 \<le> d" "d \<le> monthLength y (m - 1)"
    using assms(1) by (simp_all add: realGregorianDate_def)
  note sd = makeLocal_sameday [OF r assms(5)]
  have y: "(if 0 \<le> y \<and> y \<le> 99 then 1900 + y else y) = y"
    using assms(2) by auto
  have "newDate zone y (m - 1) d = ValidDate (makeLocal zone y (m - 1) d 0 0 0 0)"
    using assms(3,4) sd by (simp add: newDate_def y timeClip_ok)
  then show ?thesis using sd by simp
qed

lemma newDate_match_real:
  assumes "getFullYear (newDate zone y m0 d) = Some y"
    and "getMonth (newDate zone y m0 d) = Some m0"
    and "getDate (newDate zone y m0 d) = Some d"
  shows "realGregorianDate y (m0 + 1) d"
proof -
  define y0 where "y0 = (if 0 \<le> y \<and> y \<le> 99 then 1900 + y else y)"
  define f where "f = makeLocal zone y0 m0 d 0 0 0 0"
  have nd: "newDate zone y m0 d = timeClip f" by (simp add: newDate_def f_def y0_def)
  have "timeClip f = ValidDate f"
    using assms(1) nd by (auto simp: timeClip_def getFullYear_def split: if_splits)
  then have "fullYear f = y" "monthIdx f = m0" "dayOfMonth f = d"
    using assms nd by (simp_all add: getFullYear_def getMonth_def getDate_def)
  then show ?thesis using makeLocal_real [of zone y0 m0 d 0 0 0 0] by (simp add: f_def)
qed

lemma split3:
  assumes "c \<notin> set a" "c \<notin> set b" "c \<notin> set e"
  shows "js_split c (a @ c # b @ c # e) = [a, b, e]"
  using assms by (simp add: js_split_app js_split_nosep)


lemma parseThaiDate_digits:
  assumes "\<forall>c\<in>set ds. isDigit c" "\<forall>c\<in>set ms. isDigit c" "\<forall>c\<in>set ys. isDigit c"
    and "ds \<noteq> []" "ms \<noteq> []" "ys \<noteq> []"
    and "length ds + length ms + length ys = 8"
  shows "parseThaiDate zone cy (ds @ CHR ''/'' # ms @ CHR ''/'' # ys) =
     (let day = int (digitsValue ds); month = int (digitsValue ms);
          yearBE = int (digitsValue ys)
      in if month < 1 \<or> month > 12 then None
         else if day < 1 \<or> day > 31 then None
         else let yearAD = yearBE - BE_OFFSET in
           if yearAD > cy + 100 \<or> yearAD < cy - 100 then None
           else let date = newDate zone yearAD (month - 1) day in
             if getFullYear date \<noteq> Some yearAD \<or> getMonth date \<noteq> Some (month - 1)
                \<or> getDate date \<noteq> Some day
             then None else Some date)"
proof -
  have sp: "js_split CHR ''/'' (ds @ CHR ''/'' # ms @ CHR ''/'' # ys) = [ds, ms, ys]"
    using assms(1-3) by (intro split3) (simp_all add: digits_no_separator)
  have len: "length (ds @ CHR ''/'' # ms @ CHR ''/'' # ys) = 10"
    using assms(7) by simp
  show ?thesis
    unfolding parseThaiDate_def sp Let_def
    using len assms(1-6) by (simp add: parseInt_digits)
qed

lemma realGregorianDate_ranges:
  "realGregorianDate y m d \<Longrightarrow> 1 \<le> m \<and> m \<le> 12 \<and> 1 \<le> d \<and> d \<le> 31"
  using monthLength_bounds [of y "m - 1"] by (simp add: realGregorianDate_def)




lemma parseThaiDate_displayText:
  assumes "0 \<le> d" "d \<le> 99" "0 \<le> m" "m \<le> 99" "0 \<le> yBE" "yBE \<le> 9999"
  shows "parseThaiDate zone cy (displayText d m yBE) =
     (if m < 1 \<or> m > 12 then None
      else if d < 1 \<or> d > 31 then None
      else if yBE - 543 > cy + 100 \<or> yBE - 543 < cy - 100 then None
      else if getFullYear (newDate zone (yBE - 543) (m - 1) d) \<noteq> Some (yBE - 543)
              \<or> getMonth (newDate zone (yBE - 543) (m - 1) d) \<noteq> Some (m - 1)
              \<or> getDate (newDate zone (yBE - 543) (m - 1) d) \<noteq> Some d
      then None else Some (newDate zone (yBE - 543) (m - 1) d))"
    (is "_ = ?rhs")
proof -
  note py = pad4_props [OF assms(5,6)] and pm = pad2_props [OF assms(3,4)]
    and pd = pad2_props [OF assms(1,2)]
  have "parseThaiDate zone cy (padNum 2 d @ CHR ''/'' # padNum 2 m @ CHR ''/'' # padNum 4 yBE)
      = ?rhs"
    using assms
    by (subst parseThaiDate_digits) (simp_all add: py pm pd BE_OFFSET_def Let_def)
  then show ?thesis by (simp add: displayText_def)
qed

lemma parseThaiDate_sameday:
  assumes "realGregorianDate (yBE - 543) m d" and "0 \<le> yBE" "yBE \<le> 9999"
    and "\<not> (0 \<le> yBE - 543 \<and> yBE - 543 \<le> 99)"
    and "dayExists zone (yBE - 543) (m - 1) d"
  shows "\<exists>g. fullYear g = yBE - 543 \<and> monthIdx g = m - 1 \<and> dayOfMonth g = d \<and>
     parseThaiDate zone cy (displayText d m yBE) =
       (if yBE - 543 > cy + 100 \<or> yBE - 543 < cy - 100 then None else Some (ValidDate g))"
proof -
  have r: "0 \<le> d" "d \<le> 99" "0 \<le> m" "m \<le> 99" "1 \<le> m" "m \<le> 12" "1 \<le> d" "d \<le> 31"
    using realGregorianDate_ranges [OF assms(1)] by simp_all
  obtain g where g: "newDate zone (yBE - 543) (m - 1) d = ValidDate g" "fullYear g = yBE - 543"
      "monthIdx g = m - 1" "dayOfMonth g = d"
    using newDate_sameday [OF assms(1,4) _ _ assms(5)] assms(2,3) by auto
  have "parseThaiDate zone cy (displayText d m yBE) =
       (if yBE - 543 > cy + 100 \<or> yBE - 543 < cy - 100 then None else Some (ValidDate g))"
    using r g
    by (simp add: parseThaiDate_displayText [OF r(1-4) assms(2,3)] getFullYear_def getMonth_def
        getDate_def)
  then show ?thesis using g by blast
qed










section \<open>Formatting and parsing of whole texts\<close>





text \<open>The formatters read the date fields only.\<close>

lemma formatADDate_date_fields:
  assumes "fullYear g = fullYear f" "monthIdx g = monthIdx f" "dayOfMonth g = dayOfMonth f"
  shows "formatADDate (Some (ValidDate g)) = formatADDate (Some (ValidDate f))"
  using assms by (simp add: formatADDate_def)




section \<open>Round trip through the codec\<close>






section \<open>Dates that do not exist\<close>

lemma numericTriple_SomeD:
  assumes "numericTriple sep s = Some (x, y, z)"
  shows "\<exists>a b c. js_split sep s = [a, b, c] \<and> parseInt a = Some x \<and> parseInt b = Some y
           \<and> parseInt c = Some z"
  using assms
  by (auto simp: numericTriple_def split: list.splits option.splits)

lemma parseADDate_unreal:
  assumes "numericTriple CHR ''-'' s = Some (y, m, d)" and "\<not> realGregorianDate y m d"
  shows "parseADDate zone s = None"
proof -
  obtain a b c where sp: "js_split CHR ''-'' s = [a, b, c]"
    and pi: "parseInt a = Some y" "parseInt b = Some m" "parseInt c = Some d"
    using numericTriple_SomeD [OF assms(1)] by blast
  have "\<not> (getFullYear (newDate zone y (m - 1) d) = Some y
          \<and> getMonth (newDate zone y (m - 1) d) = Some (m - 1)
          \<and> getDate (newDate zone y (m - 1) d) = Some d)"
    using newDate_match_real [of zone y "m - 1" d] assms(2) by auto
  then show ?thesis
    by (auto simp: parseADDate_def sp pi Let_def)
qed

lemma parseThaiDate_unreal:
  assumes "numericTriple CHR ''/'' s = Some (d, m, yBE)"
    and "\<not> realGregorianDate (yBE - 543) m d"
  shows "parseThaiDate zone cy s = None"
proof -
  obtain a b c where sp: "js_split CHR ''/'' s = [a, b, c]"
    and pi: "parseInt a = Some d" "parseInt b = Some m" "parseInt c = Some yBE"
    using numericTriple_SomeD [OF assms(1)] by blast
  have "\<not> (getFullYear (newDate zone (yBE - 543) (m - 1) d) = Some (yBE - 543)
          \<and> getMonth (newDate zone (yBE - 543) (m - 1) d) = Some (m - 1)
          \<and> getDate (newDate zone (yBE - 543) (m - 1) d) = Some d)"
    using newDate_match_real [of zone "yBE - 543" "m - 1" d] assms(2) by auto
  then show ?thesis
    by (auto simp: parseThaiDate_def sp pi Let_def BE_OFFSET_def)
qed

lemma parseADDateTime_date_None:
  assumes "elemAt (js_split CHR '' '' v) 0 = Some s" and "parseADDate zone s = None"
  shows "parseADDateTime zone v = None"
  using assms by (auto simp: parseADDateTime_def Let_def split: option.splits)

lemma parseThaiDateTime_date_None:
  assumes "elemAt (js_split CHR '' '' v) 0 = Some s" and "parseThaiDate zone cy s = None"
  shows "parseThaiDateTime zone cy v = None"
  using assms by (auto simp: parseThaiDateTime_def Let_def split: option.splits)

text \<open>
  Claim C2.  A numerically well-formed date text whose (year, month, day) triple is not a
  real Gregorian date is rejected by \<open>parseADDate\<close> and by \<open>parseThaiDate\<close> (the year of the
  display text is BE, 543 more than the AD year), and so is every date+time text whose
  date part it is.  In particular \<open>2025-02-30\<close> and \<open>30/02/2568\<close> are rejected, whatever
  the current year.  All of this holds in every time zone.
\<close>

theorem existence_rejection:
  "(numericTriple CHR ''-'' s = Some (y, m, d) \<and> \<not> realGregorianDate y m d \<longrightarrow>
      parseADDate zone s = None
      \<and> (elemAt (js_split CHR '' '' v) 0 = Some s \<longrightarrow> parseADDateTime zone v = None))
   \<and> (numericTriple CHR ''/'' t = Some (d', m', yBE) \<and> \<not> realGregorianDate (yBE - 543) m' d' \<longrightarrow>
      parseThaiDate zone currentYear t = None
      \<and> (elemAt (js_split CHR '' '' w) 0 = Some t \<longrightarrow>
           parseThaiDateTime zone currentYear w = None))
   \<and> parseADDate zone ''2025-02-30'' = None
   \<and> parseThaiDate zone currentYear ''30/02/2568'' = None"
proof -
  have "numericTriple CHR ''-'' ''2025-02-30'' = Some (2025, 2, 30)" by code_simp
  moreover have "\<not> realGregorianDate 2025 2 30" by code_simp
  ultimately have ex1: "parseADDate zone ''2025-02-30'' = None"
    by (rule parseADDate_unreal)
  have "numericTriple CHR ''/'' ''30/02/2568'' = Some (30, 2, 2568)" by code_simp
  moreover have "\<not> realGregorianDate (2568 - 543) 2 30" by code_simp
  ultimately have ex2: "parseThaiDate zone currentYear ''30/02/2568'' = None"
    by (rule parseThaiDate_unreal)
  have ad: "parseADDate zone s = None
      \<and> (elemAt (js_split CHR '' '' v) 0 = Some s \<longrightarrow> parseADDateTime zone v = None)"
    if "numericTriple CHR ''-'' s = Some (y, m, d) \<and> \<not> realGregorianDate y m d"
    using that parseADDate_unreal [of s y m d zone] parseADDateTime_date_None [of v s zone]
    by blast
  have th: "parseThaiDate zone currentYear t = None
      \<and> (elemAt (js_split CHR '' '' w) 0 = Some t \<longrightarrow>
           parseThaiDateTime zone currentYear w = None)"
    if "numericTriple CHR ''/'' t = Some (d', m', yBE) \<and> \<not> realGregorianDate (yBE - 543) m' d'"
    using that parseThaiDate_unreal [of t d' m' yBE zone currentYear]
      parseThaiDateTime_date_None [of w t zone currentYear]
    by blast
  show ?thesis
    using ex1 ex2 ad th by blast
qed

theorem existence_rejection_witness:
  "numericTriple CHR ''-'' ''2025-04-31'' = Some (2025, 4, 31) \<and> \<not> realGregorianDate 2025 4 31
   \<and> elemAt (js_split CHR '' '' ''2025-04-31 10:00'') 0 = Some ''2025-04-31''
   \<and> parseADDate zoneUTC ''2025-04-31'' = None
   \<and> parseADDateTime zoneUTC ''2025-04-31 10:00'' = None
   \<and> numericTriple CHR ''/'' ''31/04/2568'' = Some (31, 4, 2568)
   \<and> \<not> realGregorianDate (2568 - 543) 4 31
   \<and> elemAt (js_split CHR '' '' ''31/04/2568 10:00'') 0 = Some ''31/04/2568''
   \<and> parseThaiDate zoneUTC 2026 ''31/04/2568'' = None
   \<and> parseThaiDateTime zoneUTC 2026 ''31/04/2568 10:00'' = None"
proof -
  have a: "numericTriple CHR ''-'' ''2025-04-31'' = Some (2025, 4, 31)" by code_simp
  have b: "\<not> realGregorianDate 2025 4 31" by code_simp
  have c: "elemAt (js_split CHR '' '' ''2025-04-31 10:00'') 0 = Some ''2025-04-31''" by code_simp
  have a': "numericTriple CHR ''/'' ''31/04/2568'' = Some (31, 4, 2568)" by code_simp
  have b': "\<not> realGregorianDate (2568 - 543) 4 31" by code_simp
  have c': "elemAt (js_split CHR '' '' ''31/04/2568 10:00'') 0 = Some ''31/04/2568''" by code_simp
  show ?thesis
    using a b c a' b' c'
      existence_rejection [of "''2025-04-31''" 2025 4 31 zoneUTC "''2025-04-31 10:00''"
        "''31/04/2568''" 31 4 2568 2026 "''31/04/2568 10:00''"]
    by blast
qed

section \<open>The plausibility window of the display parser\<close>



section \<open>Texts that the canonical parser accepts but does not reproduce\<close>

text \<open>
  Claim C7 fails on the code.  \<open>0999-12-31\<close> is accepted by \<open>parseADDate\<close>, but
  \<open>formatADDate\<close> does not pad the year and gives \<open>999-12-31\<close>.
\<close>

theorem canonical_string_roundtrip_failure:
  "parseADDate zoneUTC ''0999-12-31'' = Some (ValidDate (midnightOf 999 11 31))
   \<and> formatADDate (parseADDate zoneUTC ''0999-12-31'') = ''999-12-31''
   \<and> formatADDate (parseADDate zoneUTC ''0999-12-31'') \<noteq> ''0999-12-31''"
  by code_simp

theorem canonical_string_roundtrip_failure_witness:
  "parseADDate zoneUTC ''0999-12-31'' \<noteq> None
   \<and> formatADDate (parseADDate zoneUTC ''0999-12-31'') \<noteq> ''0999-12-31''"
  using canonical_string_roundtrip_failure by auto

text \<open>
  Claim C9 fails on the code.  \<open>parseInt\<close> reads the digits in front of a non-digit
  character, so a field such as \<open>1a\<close> is the number 1 and the text is accepted.
\<close>

theorem non_digit_field_accepted:
  "parseADDate zoneUTC ''2025-1a-01'' = Some (ValidDate (midnightOf 2025 0 1))
   \<and> parseThaiDate zoneUTC 2026 ''1a/02/2569'' = Some (ValidDate (midnightOf 2026 1 1))
   \<and> parseADDateTime zoneUTC ''2025-01-01 1x:30'' = Some (ValidDate
      \<lparr>fullYear = 2025, monthIdx = 0, dayOfMonth = 1, hours = 1, minutes = 30, seconds = 0,
       milliseconds = 0\<rparr>)"
  by code_simp

theorem non_digit_field_accepted_witness:
  "parseADDate zoneUTC ''2025-1a-01'' \<noteq> None \<and> parseThaiDate zoneUTC 2026 ''1a/02/2569'' \<noteq> None
   \<and> parseADDateTime zoneUTC ''2025-01-01 1x:30'' \<noteq> None"
  using non_digit_field_accepted by auto

section \<open>The input mask\<close>

lemma maskRaw_eq: "maskRaw withTime s = take (maxDigits withTime) (filter isDigit s)"
  by (simp add: maskRaw_def slice_def maxDigits_def Let_def)

lemma maskRaw_props:
  "length (maskRaw withTime s) \<le> maxDigits withTime" "\<forall>c\<in>set (maskRaw withTime s). isDigit c"
  by (auto simp: maskRaw_eq dest: in_set_takeD)

lemma short_list_cases:
  assumes "length (xs :: 'a list) \<le> 12"
  obtains "xs = []"
  | a where "xs = [a]"
  | a b where "xs = [a, b]"
  | a b c where "xs = [a, b, c]"
  | a b c d where "xs = [a, b, c, d]"
  | a b c d e where "xs = [a, b, c, d, e]"
  | a b c d e f where "xs = [a, b, c, d, e, f]"
  | a b c d e f g where "xs = [a, b, c, d, e, f, g]"
  | a b c d e f g h where "xs = [a, b, c, d, e, f, g, h]"
  | a b c d e f g h i where "xs = [a, b, c, d, e, f, g, h, i]"
  | a b c d e f g h i j where "xs = [a, b, c, d, e, f, g, h, i, j]"
  | a b c d e f g h i j k where "xs = [a, b, c, d, e, f, g, h, i, j, k]"
  | a b c d e f g h i j k l where "xs = [a, b, c, d, e, f, g, h, i, j, k, l]"
proof -
  have "length xs = 0 \<or> length xs = 1 \<or> length xs = 2 \<or> length xs = 3 \<or> length xs = 4
      \<or> length xs = 5 \<or> length xs = 6 \<or> length xs = 7 \<or> length xs = 8 \<or> length xs = 9
      \<or> length xs = 10 \<or> length xs = 11 \<or> length xs = 12"
    using assms by arith
  then show ?thesis
    using that
    by (elim disjE) (auto simp: numeral_eq_Suc length_Suc_conv)
qed


lemma maskFormat_punctuate:
  assumes "length raw \<le> maxDigits withTime"
  shows "maskFormat withTime raw = punctuateFrom withTime 0 raw"
proof (cases withTime)
  case True
  then have "length raw \<le> 12" using assms by (simp add: maxDigits_def)
  then show ?thesis
    using True
    by (cases raw rule: short_list_cases)
       (simp_all add: maskFormat_def slice_def separatorBefore_def numeral_eq_Suc)
next
  case False
  then have le8: "length raw \<le> 8" using assms by (simp add: maxDigits_def)
  then have "length raw \<le> 12" by simp
  then show ?thesis
    using False le8
    by (cases raw rule: short_list_cases)
       (simp_all add: maskFormat_def slice_def separatorBefore_def numeral_eq_Suc)
qed

lemma filter_punctuateFrom:
  "\<forall>c\<in>set raw. isDigit c \<Longrightarrow> filter isDigit (punctuateFrom withTime i raw) = raw"
  by (induction raw arbitrary: i) (simp_all add: separatorBefore_def isDigit_def)

lemma length_punctuate_complete:
  assumes "length raw \<le> maxDigits withTime"
  shows "(length (punctuateFrom withTime 0 raw) = expectedLength withTime)
           = (length raw = maxDigits withTime)"
proof (cases withTime)
  case True
  then have "length raw \<le> 12" using assms by (simp add: maxDigits_def)
  then show ?thesis
    using True
    by (cases raw rule: short_list_cases)
       (simp_all add: separatorBefore_def maxDigits_def expectedLength_def numeral_eq_Suc)
next
  case False
  then have le8: "length raw \<le> 8" using assms by (simp add: maxDigits_def)
  then have "length raw \<le> 12" by simp
  then show ?thesis
    using False le8
    by (cases raw rule: short_list_cases)
       (simp_all add: separatorBefore_def maxDigits_def expectedLength_def numeral_eq_Suc)
qed


lemma handleInputChange_display:
  "inputValue (fst (handleInputChange zone withTime currentYear s st))
     = maskFormat withTime (maskRaw withTime s)"
  by (simp add: handleInputChange_def Let_def split: option.splits)

lemma handleInputChange_emitted:
  "snd (handleInputChange zone withTime currentYear s st) =
     (if length (maskFormat withTime (maskRaw withTime s)) = expectedLength withTime
      then (case parseThai zone withTime currentYear (maskFormat withTime (maskRaw withTime s)) of
              Some parsedDate \<Rightarrow> Some (formatAD withTime (Some parsedDate))
            | None \<Rightarrow> Some [])
      else if maskRaw withTime s = [] then Some [] else None)"
  by (simp add: handleInputChange_def Let_def expectedLength_def split: option.splits)

lemma mask_refines: "maskFormat withTime (maskRaw withTime s) = maskSpec withTime s"
  using maskFormat_punctuate [OF maskRaw_props(1), of withTime s]
  by (simp add: maskSpec_def maskRaw_eq maxDigits_def)

lemma maskRaw_maskFormat:
  "maskRaw withTime (maskFormat withTime (maskRaw withTime s)) = maskRaw withTime s"
proof -
  define raw where "raw = maskRaw withTime s"
  have len: "length raw \<le> maxDigits withTime" and dig: "\<forall>c\<in>set raw. isDigit c"
    using maskRaw_props [of withTime s] by (simp_all add: raw_def)
  have "maskRaw withTime (maskFormat withTime raw)
      = take (maxDigits withTime) (filter isDigit (punctuateFrom withTime 0 raw))"
    by (simp add: maskRaw_eq maskFormat_punctuate [OF len])
  also have "\<dots> = take (maxDigits withTime) raw"
    by (simp add: filter_punctuateFrom [OF dig])
  also have "\<dots> = raw" using len by simp
  finally show ?thesis by (simp add: raw_def)
qed

text \<open>
  Claim C6.  The digit buffer of \<open>handleInputChange\<close> is the input with every non-digit
  removed, cut to 8 digits (12 with time), and the text it puts in the field is the
  re-punctuation of that buffer described by \<open>maskSpec\<close>.  The digits \<open>18022569\<close> in
  date-only mode give \<open>18/02/2569\<close>, and (the current year being within 100 years of 2026,
  in a zone that does not skip 18 February 2026) the completed text is reported upward as
  \<open>2026-02-18\<close>.
\<close>

theorem input_mask_refines_spec:
  "maskRaw withTime s = take (if withTime then 12 else 8) (filter isDigit s)
   \<and> inputValue (fst (handleInputChange zone withTime currentYear s st)) = maskSpec withTime s
   \<and> inputValue (fst (handleInputChange zone False currentYear ''18022569'' st)) = ''18/02/2569''
   \<and> (1926 \<le> currentYear \<and> currentYear \<le> 2126 \<and> dayExists zone 2026 1 18 \<longrightarrow>
        snd (handleInputChange zone False currentYear ''18022569'' st) = Some ''2026-02-18'')"
proof -
  have raw: "maskRaw False ''18022569'' = ''18022569''" by code_simp
  have fm: "maskFormat False ''18022569'' = ''18/02/2569''" by code_simp
  have dt: "displayText 18 2 2569 = ''18/02/2569''" by code_simp
  have real: "realGregorianDate (2569 - 543) 2 18" by code_simp
  have f: "formatADDate (Some (ValidDate (midnightOf 2026 1 18))) = ''2026-02-18''"
    by code_simp
  have e: "snd (handleInputChange zone False currentYear ''18022569'' st) = Some ''2026-02-18''"
    if w: "1926 \<le> currentYear \<and> currentYear \<le> 2126 \<and> dayExists zone 2026 1 18"
  proof -
    have de: "dayExists zone (2569 - 543) (2 - 1) 18" using w by simp
    obtain g where g: "fullYear g = 2026" "monthIdx g = 1" "dayOfMonth g = 18"
      and p: "parseThaiDate zone currentYear ''18/02/2569'' = Some (ValidDate g)"
      using parseThaiDate_sameday [OF real _ _ _ de, of currentYear] w by (auto simp: dt)
    have "formatADDate (Some (ValidDate g)) = ''2026-02-18''"
      using formatADDate_date_fields [of g "midnightOf 2026 1 18"] g f
      by (simp add: midnightOf_def)
    then show ?thesis
      using p
      by (simp add: handleInputChange_emitted raw fm expectedLength_def parseThai_def
          formatAD_def)
  qed
  show ?thesis
    using e
    by (simp add: handleInputChange_display mask_refines [symmetric] raw fm)
       (simp add: maskRaw_eq maxDigits_def)
qed

theorem input_mask_refines_spec_witness:
  "(1926::int) \<le> 2026 \<and> (2026::int) \<le> 2126 \<and> dayExists zoneUTC 2026 1 18
   \<and> snd (handleInputChange zoneUTC False 2026 ''18022569''
        \<lparr>inputValue = [], viewDate = ValidDate (midnightOf 2026 1 18),
         selectedTime = (Some 0, Some 0)\<rparr>)
      = Some ''2026-02-18''"
proof -
  have z: "dayExists zoneUTC 2026 1 18" by code_simp
  show ?thesis
    using z input_mask_refines_spec [of False "[]" zoneUTC 2026
      "\<lparr>inputValue = [], viewDate = ValidDate (midnightOf 2026 1 18),
        selectedTime = (Some 0, Some 0)\<rparr>"]
    by simp
qed

text \<open>
  Claim C10.  Feeding the text that \<open>handleInputChange\<close> displays back into
  \<open>handleInputChange\<close> displays the same text again, in both modes.
\<close>

theorem mask_idempotent:
  "inputValue (fst (handleInputChange zone' withTime currentYear'
      (inputValue (fst (handleInputChange zone withTime currentYear s st))) st'))
   = inputValue (fst (handleInputChange zone withTime currentYear s st))"
  by (simp add: handleInputChange_display maskRaw_maskFormat)

theorem mask_idempotent_witness:
  "inputValue (fst (handleInputChange zoneUTC True 2026
      (inputValue (fst (handleInputChange zoneUTC True 2026 ''18a02-2569 x14''
        \<lparr>inputValue = [], viewDate = ValidDate (midnightOf 2026 1 18),
         selectedTime = (Some 0, Some 0)\<rparr>)))
      \<lparr>inputValue = [], viewDate = ValidDate (midnightOf 2026 1 18),
       selectedTime = (Some 0, Some 0)\<rparr>))
   = ''18/02/2569 14''"
proof -
  have "inputValue (fst (handleInputChange zoneUTC True 2026 ''18a02-2569 x14''
        \<lparr>inputValue = [], viewDate = ValidDate (midnightOf 2026 1 18),
         selectedTime = (Some 0, Some 0)\<rparr>))
      = ''18/02/2569 14''"
    by code_simp
  then show ?thesis
    using mask_idempotent [of zoneUTC True 2026 zoneUTC 2026 "''18a02-2569 x14''"
        "\<lparr>inputValue = [], viewDate = ValidDate (midnightOf 2026 1 18),
          selectedTime = (Some 0, Some 0)\<rparr>"
        "\<lparr>inputValue = [], viewDate = ValidDate (midnightOf 2026 1 18),
          selectedTime = (Some 0, Some 0)\<rparr>"]
    by simp
qed

text \<open>
  Claim C5.  The displayed text reaches the mode's full length (10, or 16 with time) exactly
  when the digit buffer is full.  At full length \<open>onChange\<close> receives the canonical text of
  the parsed instant when the display text parses, and the empty string when it does not;
  with an empty digit buffer \<open>onChange\<close> receives the empty string; for any other input
  \<open>onChange\<close> is not called.  In every case the field shows the masked text.
\<close>

theorem input_change_emission:
  "((length (maskFormat withTime (maskRaw withTime s)) = expectedLength withTime)
      = (length (maskRaw withTime s) = maxDigits withTime))
   \<and> (length (maskFormat withTime (maskRaw withTime s)) = expectedLength withTime
        \<and> parseThai zone withTime currentYear (maskFormat withTime (maskRaw withTime s)) = Some dt
      \<longrightarrow> snd (handleInputChange zone withTime currentYear s st)
            = Some (formatAD withTime (Some dt)))
   \<and> (length (maskFormat withTime (maskRaw withTime s)) = expectedLength withTime
        \<and> parseThai zone withTime currentYear (maskFormat withTime (maskRaw withTime s)) = None
      \<longrightarrow> snd (handleInputChange zone withTime currentYear s st) = Some [])
   \<and> (maskRaw withTime s = [] \<longrightarrow>
        snd (handleInputChange zone withTime currentYear s st) = Some [])
   \<and> (maskRaw withTime s \<noteq> []
        \<and> length (maskFormat withTime (maskRaw withTime s)) \<noteq> expectedLength withTime
      \<longrightarrow> snd (handleInputChange zone withTime currentYear s st) = None)
   \<and> inputValue (fst (handleInputChange zone withTime currentYear s st))
        = maskFormat withTime (maskRaw withTime s)"
proof -
  have complete: "(length (maskFormat withTime (maskRaw withTime s)) = expectedLength withTime)
      = (length (maskRaw withTime s) = maxDigits withTime)"
    using length_punctuate_complete [OF maskRaw_props(1), of withTime s]
    by (simp add: maskFormat_punctuate [OF maskRaw_props(1)])
  have empty: "snd (handleInputChange zone withTime currentYear s st) = Some []"
    if "maskRaw withTime s = []"
    by (simp add: handleInputChange_emitted that maskFormat_def expectedLength_def)
  show ?thesis
    using complete empty
    by (simp add: handleInputChange_emitted handleInputChange_display)
qed

theorem input_change_emission_witness:
  "length (maskFormat False (maskRaw False ''18022569'')) = expectedLength False
   \<and> parseThai zoneUTC False 2026 (maskFormat False (maskRaw False ''18022569''))
       = Some (ValidDate (midnightOf 2026 1 18))
   \<and> snd (handleInputChange zoneUTC False 2026 ''18022569''
         \<lparr>inputValue = [], viewDate = ValidDate (midnightOf 2026 1 18),
          selectedTime = (Some 0, Some 0)\<rparr>)
       = Some (formatAD False (Some (ValidDate (midnightOf 2026 1 18))))
   \<and> length (maskFormat False (maskRaw False ''31022569'')) = expectedLength False
   \<and> parseThai zoneUTC False 2026 (maskFormat False (maskRaw False ''31022569'')) = None
   \<and> snd (handleInputChange zoneUTC False 2026 ''31022569''
         \<lparr>inputValue = [], viewDate = ValidDate (midnightOf 2026 1 18),
          selectedTime = (Some 0, Some 0)\<rparr>) = Some []
   \<and> maskRaw False ''ab/'' = []
   \<and> snd (handleInputChange zoneUTC False 2026 ''ab/''
         \<lparr>inputValue = [], viewDate = ValidDate (midnightOf 2026 1 18),
          selectedTime = (Some 0, Some 0)\<rparr>) = Some []
   \<and> maskRaw False ''18/02/'' \<noteq> []
   \<and> length (maskFormat False (maskRaw False ''18/02/'')) \<noteq> expectedLength False
   \<and> snd (handleInputChange zoneUTC False 2026 ''18/02/''
         \<lparr>inputValue = [], viewDate = ValidDate (midnightOf 2026 1 18),
          selectedTime = (Some 0, Some 0)\<rparr>) = None"
proof -
  have a: "length (maskFormat False (maskRaw False ''18022569'')) = expectedLength False
     \<and> parseThai zoneUTC False 2026 (maskFormat False (maskRaw False ''18022569''))
       = Some (ValidDate (midnightOf 2026 1 18))"
    by code_simp
  have b: "length (maskFormat False (maskRaw False ''31022569'')) = expectedLength False
     \<and> parseThai zoneUTC False 2026 (maskFormat False (maskRaw False ''31022569'')) = None"
    by code_simp
  have c: "maskRaw False ''ab/'' = []" by code_simp
  have d: "maskRaw False ''18/02/'' \<noteq> []
     \<and> length (maskFormat False (maskRaw False ''18/02/'')) \<noteq> expectedLength False"
    by code_simp
  note st0 = input_change_emission [where withTime = False and currentYear = 2026
      and zone = zoneUTC
      and st = "\<lparr>inputValue = [], viewDate = ValidDate (midnightOf 2026 1 18),
                 selectedTime = (Some 0, Some 0)\<rparr>"]
  have r1: "snd (handleInputChange zoneUTC False 2026 ''18022569''
         \<lparr>inputValue = [], viewDate = ValidDate (midnightOf 2026 1 18),
          selectedTime = (Some 0, Some 0)\<rparr>)
       = Some (formatAD False (Some (ValidDate (midnightOf 2026 1 18))))"
    using a st0 [of "''18022569''" "ValidDate (midnightOf 2026 1 18)"]
    by simp
  have r2: "snd (handleInputChange zoneUTC False 2026 ''31022569''
         \<lparr>inputValue = [], viewDate = ValidDate (midnightOf 2026 1 18),
          selectedTime = (Some 0, Some 0)\<rparr>) = Some []"
    using b st0 [of "''31022569''" InvalidDate] by simp
  have r3: "snd (handleInputChange zoneUTC False 2026 ''ab/''
         \<lparr>inputValue = [], viewDate = ValidDate (midnightOf 2026 1 18),
          selectedTime = (Some 0, Some 0)\<rparr>) = Some []"
    using c st0 [of "''ab/''" InvalidDate] by simp
  have r4: "snd (handleInputChange zoneUTC False 2026 ''18/02/''
         \<lparr>inputValue = [], viewDate = ValidDate (midnightOf 2026 1 18),
          selectedTime = (Some 0, Some 0)\<rparr>) = None"
    using d st0 [of "''18/02/''" InvalidDate] by simp
  show ?thesis
    using a b c d r1 r2 r3 r4 by blast
qed

section \<open>Synchronising the external value\<close>

lemma isSameDate_None: "isSameDate None d = (d = None)"
  by (simp add: isSameDate_def split: option.splits Date.splits)

lemma parseThai_incomplete:
  assumes "length s \<noteq> expectedLength withTime"
  shows "parseThai zone withTime currentYear s = None"
proof (cases withTime)
  case True
  then have "length s \<noteq> 16" using assms by (simp add: expectedLength_def)
  then show ?thesis using True by (simp add: parseThai_def parseThaiDateTime_def)
next
  case False
  then have "length s \<noteq> 10" using assms by (simp add: expectedLength_def)
  then show ?thesis using False by (simp add: parseThai_def parseThaiDate_def)
qed

text \<open>
  Claim C4 (amended).  When the external value changes to a text that \<open>parseAD\<close> rejects:
  a non-empty value leaves the display text as it is; an empty value clears the display
  text when the display text parses, and leaves it as it is when it is partial (not of the
  mode's full length).
\<close>

theorem sync_unparsable_external:
  assumes "prevDeps \<noteq> Some (value, withTime)" and "parseAD zone withTime value = None"
  shows "(value \<noteq> [] \<longrightarrow>
            inputValue (useEffectValueSync zone prevDeps withTime currentYear value st)
              = inputValue st)
       \<and> (value = [] \<and> parseThai zone withTime currentYear (inputValue st) \<noteq> None \<longrightarrow>
            inputValue (useEffectValueSync zone prevDeps withTime currentYear value st) = [])
       \<and> (value = [] \<and> length (inputValue st) \<noteq> expectedLength withTime \<longrightarrow>
            inputValue (useEffectValueSync zone prevDeps withTime currentYear value st)
              = inputValue st)"
  using assms parseThai_incomplete [of "inputValue st" withTime zone currentYear]
  by (auto simp: useEffectValueSync_def valueSyncEffect_def Let_def isSameDate_None)

theorem sync_unparsable_external_witness:
  "Some (''2026-02-18'', False) \<noteq> Some ([], False) \<and> parseAD zoneUTC False [] = None
   \<and> parseThai zoneUTC False 2026 ''18/02/2569'' \<noteq> None
   \<and> inputValue (useEffectValueSync zoneUTC (Some (''2026-02-18'', False)) False 2026 []
        \<lparr>inputValue = ''18/02/2569'', viewDate = ValidDate (midnightOf 2026 1 18),
         selectedTime = (Some 0, Some 0)\<rparr>)
      = []
   \<and> length ''18/02'' \<noteq> expectedLength False
   \<and> inputValue (useEffectValueSync zoneUTC (Some (''2026-02-18'', False)) False 2026 []
        \<lparr>inputValue = ''18/02'', viewDate = ValidDate (midnightOf 2026 1 18),
         selectedTime = (Some 0, Some 0)\<rparr>)
      = ''18/02''"
proof -
  have a: "Some (''2026-02-18'', False) \<noteq> Some ([], False)" by simp
  have b: "parseAD zoneUTC False [] = None" by code_simp
  have c: "parseThai zoneUTC False 2026 ''18/02/2569'' \<noteq> None" by code_simp
  have d: "length ''18/02'' \<noteq> expectedLength False" by code_simp
  have r1: "inputValue (useEffectValueSync zoneUTC (Some (''2026-02-18'', False)) False 2026 []
        \<lparr>inputValue = ''18/02/2569'', viewDate = ValidDate (midnightOf 2026 1 18),
         selectedTime = (Some 0, Some 0)\<rparr>)
      = []"
    using c sync_unparsable_external [OF a b, of 2026
        "\<lparr>inputValue = ''18/02/2569'', viewDate = ValidDate (midnightOf 2026 1 18),
          selectedTime = (Some 0, Some 0)\<rparr>"]
    by simp
  have r2: "inputValue (useEffectValueSync zoneUTC (Some (''2026-02-18'', False)) False 2026 []
        \<lparr>inputValue = ''18/02'', viewDate = ValidDate (midnightOf 2026 1 18),
         selectedTime = (Some 0, Some 0)\<rparr>)
      = ''18/02''"
    using d sync_unparsable_external [OF a b, of 2026
        "\<lparr>inputValue = ''18/02'', viewDate = ValidDate (midnightOf 2026 1 18),
          selectedTime = (Some 0, Some 0)\<rparr>"]
    by simp
  show ?thesis
    using a b c d r1 r2 by blast
qed

text \<open>
  The claim as written fails.  The external value is \<open>2026-02-18\<close> and the field shows
  \<open>18/02/2569\<close>; the user deletes characters until the field shows the partial text
  \<open>18/02\<close> (no \<open>onChange\<close> call); then the external value changes to the empty string.  Both
  sides parse to null, \<open>isSameDate\<close> holds, and the display text is not cleared.
\<close>

theorem sync_empty_external_counterexample:
  "inputValue (fst (handleInputChange zoneUTC False 2026 ''18/02/''
       \<lparr>inputValue = ''18/02/2'', viewDate = ValidDate (midnightOf 2026 1 18),
        selectedTime = (Some 0, Some 0)\<rparr>)) = ''18/02''
   \<and> snd (handleInputChange zoneUTC False 2026 ''18/02/''
       \<lparr>inputValue = ''18/02/2'', viewDate = ValidDate (midnightOf 2026 1 18),
        selectedTime = (Some 0, Some 0)\<rparr>) = None
   \<and> parseAD zoneUTC False [] = None
   \<and> inputValue (useEffectValueSync zoneUTC (Some (''2026-02-18'', False)) False 2026 []
        \<lparr>inputValue = ''18/02'', viewDate = ValidDate (midnightOf 2026 1 18),
         selectedTime = (Some 0, Some 0)\<rparr>)
      \<noteq> []"
  by code_simp

text \<open>
  Claim C8.  A render whose dependencies \<open>[value, withTime]\<close> are those of the render before
  does not run the effect, so the state (and with it a partial display text) is unchanged;
  in particular, after a keystroke that leaves a partial text and calls no \<open>onChange\<close>, the
  field keeps the masked text.
\<close>

theorem sync_unchanged_value:
  "useEffectValueSync zone (Some (value, withTime)) withTime currentYear value st = st
   \<and> (snd (handleInputChange zone withTime currentYear s st) = None \<longrightarrow>
        inputValue (useEffectValueSync zone (Some (value, withTime)) withTime currentYear value
          (fst (handleInputChange zone withTime currentYear s st)))
        = maskFormat withTime (maskRaw withTime s))"
  by (simp add: useEffectValueSync_def handleInputChange_display)

theorem sync_unchanged_value_witness:
  "snd (handleInputChange zoneUTC False 2026 ''18/02/''
      \<lparr>inputValue = ''18/02/2'', viewDate = ValidDate (midnightOf 2026 1 18),
       selectedTime = (Some 0, Some 0)\<rparr>) = None
   \<and> inputValue (useEffectValueSync zoneUTC (Some (''2026-02-18'', False)) False 2026
        ''2026-02-18''
        (fst (handleInputChange zoneUTC False 2026 ''18/02/''
          \<lparr>inputValue = ''18/02/2'', viewDate = ValidDate (midnightOf 2026 1 18),
           selectedTime = (Some 0, Some 0)\<rparr>)))
      = ''18/02''"
proof -
  have a: "snd (handleInputChange zoneUTC False 2026 ''18/02/''
      \<lparr>inputValue = ''18/02/2'', viewDate = ValidDate (midnightOf 2026 1 18),
       selectedTime = (Some 0, Some 0)\<rparr>) = None"
    by code_simp
  have b: "maskFormat False (maskRaw False ''18/02/'') = ''18/02''" by code_simp
  show ?thesis
    using a b sync_unchanged_value [of zoneUTC "''2026-02-18''" False 2026
        "\<lparr>inputValue = ''18/02/2'', viewDate = ValidDate (midnightOf 2026 1 18),
          selectedTime = (Some 0, Some 0)\<rparr>"
        "''18/02/''"]
    by simp
qed

text \<open>
  The guarantee of C8 rests on the dependency list: the effect body itself, run on a
  partial display text with a parsable external value, overwrites the text.
\<close>

lemma effect_body_overwrites_partial:
  "inputValue (valueSyncEffect zoneUTC False 2026 ''2026-02-18''
      \<lparr>inputValue = ''18/02'', viewDate = ValidDate (midnightOf 2026 1 18),
       selectedTime = (Some 0, Some 0)\<rparr>)
   = ''18/02/2569''"
  by code_simp

end
